theory Spec2Isabelle
  imports Complex_Main "HOL-Library.Multiset"
begin

section \<open>JavaScript values\<close>

text \<open>
  A JavaScript number is modelled as a real: finite, with exact arithmetic. A value that
  may also be \<^verbatim>\<open>undefined\<close> or \<^verbatim>\<open>NaN\<close> is a \<open>real option\<close>, with \<open>None\<close> for
  both (the source only ever passes such a value through \<^verbatim>\<open>||\<close>, which treats the
  two alike). Infinities and the rounding of IEEE doubles are outside the model.
  Strings are ASCII.
\<close>

definition truthy :: "real option \<Rightarrow> bool" where
  "truthy x = (case x of None \<Rightarrow> False | Some v \<Rightarrow> v \<noteq> 0)"

text \<open>\<^verbatim>\<open>x || d\<close> on a number \<open>x\<close>: \<open>d\<close> when \<open>x\<close> is undefined, NaN or zero.\<close>

definition or_default :: "real option \<Rightarrow> real \<Rightarrow> real" where
  "or_default x d = (case x of None \<Rightarrow> d | Some v \<Rightarrow> if v = 0 then d else v)"

text \<open>\<^verbatim>\<open>String.prototype.toLowerCase\<close> on ASCII.\<close>

definition lower_char :: "char \<Rightarrow> char" where
  "lower_char c =
     (if (65::nat) \<le> of_char c \<and> of_char c \<le> (90::nat)
      then char_of (of_char c + (32::nat)) else c)"

definition toLowerCase :: "string \<Rightarrow> string" where
  "toLowerCase s = map lower_char s"

text \<open>
  \<^verbatim>\<open>Number.prototype.toFixed(2)\<close>: the decimal digits of the integer nearest to
  \<open>100 * x\<close> (the larger one on a tie), with a point before the last two and the sign in
  front. From \<open>10^21\<close> on the builtin switches to exponent notation, which is not
  modelled: there the digits inside a reason string differ.
\<close>

definition digit_char :: "nat \<Rightarrow> char" where
  "digit_char d = char_of (48 + d)"

fun digits :: "nat \<Rightarrow> string" where
  "digits n = (if n < 10 then [digit_char n] else digits (n div 10) @ [digit_char (n mod 10)])"

declare digits.simps [simp del]

definition toFixed2_abs :: "real \<Rightarrow> string" where
  "toFixed2_abs x =
     (let n = nat \<lfloor>x * 100 + 1 / 2\<rfloor>;
          m = digits n;
          m' = (if length m \<le> 2 then replicate (3 - length m) (CHR ''0'') @ m else m);
          k = length m'
      in take (k - 2) m' @ ''.'' @ drop (k - 2) m')"

definition toFixed2 :: "real \<Rightarrow> string" where
  "toFixed2 x = (if x < 0 then ''-'' @ toFixed2_abs (- x) else toFixed2_abs x)"

text \<open>
  \<^verbatim>\<open>Array.prototype.sort(cmp)\<close>: a stable sort (ECMAScript 2019), here by insertion.
  \<open>cmp a b \<le> 0\<close> keeps \<open>a\<close> in front of \<open>b\<close>.
\<close>

fun insert_by :: "('a \<Rightarrow> 'a \<Rightarrow> real) \<Rightarrow> 'a \<Rightarrow> 'a list \<Rightarrow> 'a list" where
  "insert_by cmp x [] = [x]"
| "insert_by cmp x (y # ys) = (if cmp x y \<le> 0 then x # y # ys else y # insert_by cmp x ys)"

definition js_sort :: "('a \<Rightarrow> 'a \<Rightarrow> real) \<Rightarrow> 'a list \<Rightarrow> 'a list" where
  "js_sort cmp xs = foldr (insert_by cmp) xs []"

text \<open>
  What ECMAScript requires of \<^verbatim>\<open>xs.sort(cmp)\<close> for a consistent comparator, whatever
  the engine's algorithm: the result \<open>ys\<close> is a permutation of \<open>xs\<close>, it is ordered by
  \<open>cmp\<close>, and elements that compare equal keep their order.
\<close>

definition sort_contract :: "('a \<Rightarrow> 'a \<Rightarrow> real) \<Rightarrow> 'a list \<Rightarrow> 'a list \<Rightarrow> bool" where
  "sort_contract cmp xs ys \<longleftrightarrow>
     mset ys = mset xs \<and>
     sorted_wrt (\<lambda>a b. cmp a b \<le> 0) ys \<and>
     (\<forall>x \<in> set xs. filter (\<lambda>y. cmp x y = 0) ys = filter (\<lambda>y. cmp x y = 0) xs)"

text \<open>\<^verbatim>\<open>xs[0]\<close>: undefined on an empty array.\<close>

definition first :: "'a list \<Rightarrow> 'a option" where
  "first xs = (case xs of [] \<Rightarrow> None | x # _ \<Rightarrow> Some x)"


section \<open>Token scorer (backend/services/tokenScorer.js)\<close>

text \<open>
  A token as \<^verbatim>\<open>scoreTokens\<close> reads it. The field \<open>balance\<close> holds the value of
  \<^verbatim>\<open>parseFloat(token.balance)\<close>: \<open>None\<close> when the balance string does not parse (NaN).
\<close>

record token =
  address :: string
  symbol :: string
  balance :: "real option"

record price_entry =
  price :: "real option"
  volatility24h :: "real option"

record slippage_entry =
  slippage :: "real option"
  estimatedFee :: "real option"

type_synonym price_data = "string \<rightharpoonup> price_entry"
type_synonym slippage_data = "string \<rightharpoonup> slippage_entry"

text \<open>
  The object a token is mapped to: the token's own fields (\<^verbatim>\<open>...token\<close>), \<open>score\<close> and
  \<open>reasons\<close>, and on the scoring path the three derived numbers, which the two early
  returns leave unset.
\<close>

record scored_token =
  tok :: token
  usdBalance :: "real option"
  volatilityScore :: "real option"
  slippageScore :: "real option"
  score :: real
  reasons :: "string list"

record recommendation =
  recommendedToken :: "scored_token option"
  allScores :: "scored_token list"

definition weights_balance :: real where "weights_balance = 0.4"
definition weights_volatility :: real where "weights_volatility = 0.3"
definition weights_slippage :: real where "weights_slippage = 0.3"

definition normalizeBalance :: "real \<Rightarrow> real" where
  "normalizeBalance usd =
     (let minBalance = 5
      in if usd < minBalance then 0.3 * (usd / minBalance)
         else min 1 (ln usd / 5))"

definition balance_reason :: "real \<Rightarrow> string" where
  "balance_reason usd =
     (if usd \<ge> 100 then ''High balance ($'' @ toFixed2 usd @ '') provides flexibility''
      else if usd \<ge> 20 then ''Moderate balance ($'' @ toFixed2 usd @ '') is sufficient''
      else ''Low balance ($'' @ toFixed2 usd @ '') may limit options'')"

definition volatility_reason :: "real \<Rightarrow> string list" where
  "volatility_reason vol =
     (if vol < 1 then [''Very stable price ('' @ toFixed2 vol @ ''% 24h change)'']
      else if vol < 5 then [''Stable price ('' @ toFixed2 vol @ ''% 24h change)'']
      else if vol > 20 then [''High price volatility ('' @ toFixed2 vol @ ''% 24h change)'']
      else [])"

definition slippage_reason :: "real \<Rightarrow> string list" where
  "slippage_reason slip =
     (if slip < 0.5 then [''Minimal slippage ('' @ toFixed2 slip @ ''%)'']
      else if slip > 3 then [''High slippage ('' @ toFixed2 slip @ ''%)'']
      else [])"

definition generateReasons :: "real \<Rightarrow> real \<Rightarrow> real \<Rightarrow> string list" where
  "generateReasons usd vol slip =
     [balance_reason usd] @ volatility_reason vol @ slippage_reason slip"

text \<open>The callback of \<^verbatim>\<open>tokens.map\<close>.\<close>

definition scoreToken :: "price_data \<Rightarrow> slippage_data \<Rightarrow> token \<Rightarrow> scored_token" where
  "scoreToken priceData slippageData token =
     (let addr = toLowerCase (address token);
          bal = or_default (balance token) 0;
          prc = or_default (Option.bind (priceData addr) price) 0;
          usd = bal * prc;
          vol = or_default (Option.bind (priceData addr) volatility24h) 100;
          volScore = 1 - vol / 100;
          slip = or_default (Option.bind (slippageData addr) slippage) 10;
          slipScore = 1 - slip / 10
      in if usd \<le> 0 then
           \<lparr>tok = token, usdBalance = None, volatilityScore = None, slippageScore = None,
            score = 0, reasons = [''Zero balance'']\<rparr>
         else if prc \<le> 0 then
           \<lparr>tok = token, usdBalance = None, volatilityScore = None, slippageScore = None,
            score = 0, reasons = [''No price data available'']\<rparr>
         else
           \<lparr>tok = token, usdBalance = Some usd, volatilityScore = Some volScore,
            slippageScore = Some slipScore,
            score = weights_balance * normalizeBalance usd
                  + weights_volatility * volScore
                  + weights_slippage * slipScore,
            reasons = generateReasons usd vol slip\<rparr>)"

text \<open>The comparator \<^verbatim>\<open>(a, b) => b.score - a.score\<close>.\<close>

definition by_score_desc :: "scored_token \<Rightarrow> scored_token \<Rightarrow> real" where
  "by_score_desc a b = score b - score a"

text \<open>\<open>None\<close> as argument is an absent token list, \<open>None\<close> as result is \<^verbatim>\<open>null\<close>.\<close>

definition scoreTokens ::
  "token list option \<Rightarrow> price_data \<Rightarrow> slippage_data \<Rightarrow> recommendation option" where
  "scoreTokens tokens priceData slippageData =
     (case tokens of
        None \<Rightarrow> None
      | Some ts \<Rightarrow>
          if length ts = 0 then None
          else
            let scoredTokens = map (scoreToken priceData slippageData) ts;
                sortedTokens = js_sort by_score_desc scoredTokens
            in Some \<lparr>recommendedToken = first sortedTokens, allScores = sortedTokens\<rparr>)"


section \<open>Price service (backend/services/priceService.js)\<close>

text \<open>
  The service object: its two caches and the time to live set by the constructor. Each
  cache is one \<^verbatim>\<open>Map\<close> from strings to numbers that holds, for an address \<open>a\<close>, the
  value under \<open>a\<close> and the time it was stored under \<open>a\<close> with a suffix. \<open>draws\<close> counts
  the calls of \<^verbatim>\<open>Math.random()\<close> made so far.
\<close>

record service =
  priceCache :: "string \<rightharpoonup> real"
  volatilityCache :: "string \<rightharpoonup> real"
  cacheTTL :: real
  draws :: nat

text \<open>
  What a call reads from outside: \<open>now\<close> is \<^verbatim>\<open>Date.now()\<close>, taken as constant during
  one call, and \<open>math_random n\<close> is what the \<open>n\<close>-th call of \<^verbatim>\<open>Math.random()\<close> returns.
\<close>

record env =
  now :: real
  math_random :: "nat \<Rightarrow> real"

datatype error = FetchError

type_synonym fetcher = "env \<Rightarrow> service \<Rightarrow> string list \<Rightarrow> (error + (string \<rightharpoonup> real)) \<times> service"

definition new_PriceService :: service where
  "new_PriceService =
     \<lparr>priceCache = Map.empty, volatilityCache = Map.empty, cacheTTL = 5 * 60 * 1000, draws = 0\<rparr>"

definition Math_random :: "env \<Rightarrow> service \<Rightarrow> real \<times> service" where
  "Math_random e s = (math_random e (draws s), s\<lparr>draws := Suc (draws s)\<rparr>)"

definition time_key :: "string \<Rightarrow> string" where
  "time_key a = a @ ''_time''"

definition vol_time_key :: "string \<Rightarrow> string" where
  "vol_time_key a = a @ ''_vol_time''"

text \<open>
  The two stub tables, with their own keys only: what a plain object inherits
  (\<^verbatim>\<open>constructor\<close>, \<^verbatim>\<open>toString\<close> and the like) is no address and is not modelled.
\<close>

definition mockPrices :: "string \<rightharpoonup> real" where
  "mockPrices = map_of
     [(''0x6b175474e89094c44da98b954eedeac495271d0f'', 1.0),
      (''0xa0b86991c6218b36c1d19d4a2e9eb0ce3606eb48'', 1.0),
      (''0xdac17f958d2ee523a2206206994597c13d831ec7'', 1.0),
      (''0x2260fac5e5542a773aa44fbcfedf7c193bc2c599'', 40000),
      (''0xc02aaa39b223fe8d0a0e5c4f27ead9083c756cc2'', 2800),
      (''0x853d955acef822db058eb8505911ed77f175b99e'', 0.99),
      (''0x1f9840a85d5af5bf1d1762f925bdaddc4201f984'', 8.50),
      (''0x7fc66500c84a76ad7e9c93437bfc5ac33e2ddae9'', 85.20)]"

definition mockVolatility :: "string \<rightharpoonup> real" where
  "mockVolatility = map_of
     [(''0x6b175474e89094c44da98b954eedeac495271d0f'', 0.2),
      (''0xa0b86991c6218b36c1d19d4a2e9eb0ce3606eb48'', 0.1),
      (''0xdac17f958d2ee523a2206206994597c13d831ec7'', 0.15),
      (''0x853d955acef822db058eb8505911ed77f175b99e'', 0.3),
      (''0x2260fac5e5542a773aa44fbcfedf7c193bc2c599'', 3.5),
      (''0xc02aaa39b223fe8d0a0e5c4f27ead9083c756cc2'', 4.2),
      (''0x1f9840a85d5af5bf1d1762f925bdaddc4201f984'', 8.7),
      (''0x7fc66500c84a76ad7e9c93437bfc5ac33e2ddae9'', 9.3)]"

text \<open>
  The filter of \<^verbatim>\<open>_fetchPriceData\<close>:
  \<^verbatim>\<open>!cached || !cacheTime || (Date.now() - cacheTime > this.cacheTTL)\<close>.
\<close>

definition price_needs_fetch :: "real \<Rightarrow> service \<Rightarrow> string \<Rightarrow> bool" where
  "price_needs_fetch t s a =
     (let cached = priceCache s a; cacheTime = priceCache s (time_key a)
      in \<not> truthy cached \<or>
         (case cacheTime of None \<Rightarrow> True | Some ct \<Rightarrow> ct = 0 \<or> t - ct > cacheTTL s))"

definition addressesToFetch :: "real \<Rightarrow> service \<Rightarrow> string list \<Rightarrow> string list" where
  "addressesToFetch t s addresses = filter (price_needs_fetch t s) addresses"

text \<open>
  The test of the second loop:
  \<^verbatim>\<open>cachedPrice && cacheTime && (Date.now() - cacheTime <= this.cacheTTL)\<close>.
\<close>

definition price_is_fresh :: "real \<Rightarrow> service \<Rightarrow> string \<Rightarrow> bool" where
  "price_is_fresh t s a =
     (let cachedPrice = priceCache s a; cacheTime = priceCache s (time_key a)
      in truthy cachedPrice \<and>
         (case cacheTime of None \<Rightarrow> False | Some ct \<Rightarrow> ct \<noteq> 0 \<and> t - ct \<le> cacheTTL s))"

text \<open>\<^verbatim>\<open>mockPrices[address] || (Math.random() * 10 + 0.1)\<close>\<close>

definition random_price :: "env \<Rightarrow> service \<Rightarrow> real \<times> service" where
  "random_price e s = (let (r, s') = Math_random e s in (r * 10 + 0.1, s'))"

definition fresh_price :: "env \<Rightarrow> service \<Rightarrow> string \<Rightarrow> real \<times> service" where
  "fresh_price e s a =
     (case mockPrices a of
        None \<Rightarrow> random_price e s
      | Some m \<Rightarrow> if m \<noteq> 0 then (m, s) else random_price e s)"

text \<open>One round of the second loop, on the result object and the service.\<close>

definition price_step ::
  "env \<Rightarrow> string \<Rightarrow> (string \<rightharpoonup> real) \<times> service \<Rightarrow> (string \<rightharpoonup> real) \<times> service" where
  "price_step e a rs =
     (let (result, s) = rs
      in if price_is_fresh (now e) s a then
           (result(a := priceCache s a), s)
         else
           let (p, s1) = fresh_price e s a;
               s2 = s1\<lparr>priceCache := (priceCache s1)(a \<mapsto> p)\<rparr>;
               s3 = s2\<lparr>priceCache := (priceCache s2)(time_key a \<mapsto> now e)\<rparr>
           in (result(a \<mapsto> p), s3))"

definition fetchPriceData :: fetcher where
  "fetchPriceData e s addresses =
     (if length (addressesToFetch (now e) s addresses) = 0 then
        (Inr (fold (\<lambda>a result. result(a \<mapsto> or_default (priceCache s a) 0)) addresses Map.empty), s)
      else
        let (result, s') = fold (price_step e) addresses (Map.empty, s)
        in (Inr result, s'))"

text \<open>The same for the volatility cache; its second loop tests the cached value against
  \<^verbatim>\<open>undefined\<close>, and so does the lookup in the stub table.\<close>

definition vol_needs_fetch :: "real \<Rightarrow> service \<Rightarrow> string \<Rightarrow> bool" where
  "vol_needs_fetch t s a =
     (let cached = volatilityCache s a; cacheTime = volatilityCache s (vol_time_key a)
      in \<not> truthy cached \<or>
         (case cacheTime of None \<Rightarrow> True | Some ct \<Rightarrow> ct = 0 \<or> t - ct > cacheTTL s))"

definition vol_is_fresh :: "real \<Rightarrow> service \<Rightarrow> string \<Rightarrow> bool" where
  "vol_is_fresh t s a =
     (let cachedVolatility = volatilityCache s a; cacheTime = volatilityCache s (vol_time_key a)
      in cachedVolatility \<noteq> None \<and>
         (case cacheTime of None \<Rightarrow> False | Some ct \<Rightarrow> ct \<noteq> 0 \<and> t - ct \<le> cacheTTL s))"

definition fresh_volatility :: "env \<Rightarrow> service \<Rightarrow> string \<Rightarrow> real \<times> service" where
  "fresh_volatility e s a =
     (case mockVolatility a of
        Some v \<Rightarrow> (v, s)
      | None \<Rightarrow> let (r, s') = Math_random e s in (r * 14 + 1, s'))"

definition vol_step ::
  "env \<Rightarrow> string \<Rightarrow> (string \<rightharpoonup> real) \<times> service \<Rightarrow> (string \<rightharpoonup> real) \<times> service" where
  "vol_step e a rs =
     (let (result, s) = rs
      in if vol_is_fresh (now e) s a then
           (result(a := volatilityCache s a), s)
         else
           let (v, s1) = fresh_volatility e s a;
               s2 = s1\<lparr>volatilityCache := (volatilityCache s1)(a \<mapsto> v)\<rparr>;
               s3 = s2\<lparr>volatilityCache := (volatilityCache s2)(vol_time_key a \<mapsto> now e)\<rparr>
           in (result(a \<mapsto> v), s3))"

definition fetchVolatilityData :: fetcher where
  "fetchVolatilityData e s addresses =
     (if length (filter (vol_needs_fetch (now e) s) addresses) = 0 then
        (Inr (fold (\<lambda>a result. result(a \<mapsto> or_default (volatilityCache s a) 0)) addresses Map.empty), s)
      else
        let (result, s') = fold (vol_step e) addresses (Map.empty, s)
        in (Inr result, s'))"

text \<open>The body of the \<^verbatim>\<open>try\<close> block once both fetches have returned.\<close>

definition combine :: "(string \<rightharpoonup> real) \<Rightarrow> (string \<rightharpoonup> real) \<Rightarrow> string list \<Rightarrow> price_data" where
  "combine priceData volatilityData addresses =
     fold (\<lambda>a result. result(a \<mapsto>
             \<lparr>price = Some (or_default (priceData a) 0),
              volatility24h = Some (or_default (volatilityData a) 0)\<rparr>))
          addresses Map.empty"

text \<open>The body of the \<^verbatim>\<open>catch\<close> block.\<close>

definition cached_fallback :: "service \<Rightarrow> string list \<Rightarrow> price_data" where
  "cached_fallback s addresses =
     fold (\<lambda>a result.
             let cachedPrice = priceCache s a; cachedVolatility = volatilityCache s a
             in if truthy cachedPrice \<or> truthy cachedVolatility then
                  result(a \<mapsto> \<lparr>price = Some (or_default cachedPrice 0),
                                volatility24h = Some (or_default cachedVolatility 0)\<rparr>)
                else result)
          addresses Map.empty"

text \<open>
  \<^verbatim>\<open>getPriceData\<close> reaches its two fetchers through \<^verbatim>\<open>this\<close>; it is given here for any
  pair of them. A fetcher that throws returns \<open>Inl\<close> with the service as it was at the
  throw. The fetchers of the source are stubs that never throw; the request to a price
  provider that its comments describe can.
\<close>

definition getPriceData_with ::
  "fetcher \<Rightarrow> fetcher \<Rightarrow> env \<Rightarrow> service \<Rightarrow> token list option \<Rightarrow> (error + price_data) \<times> service" where
  "getPriceData_with fetchPrice fetchVolatility e s tokens =
     (case tokens of
        None \<Rightarrow> (Inr Map.empty, s)
      | Some ts \<Rightarrow>
          if length ts = 0 then (Inr Map.empty, s)
          else
            let addresses = map (\<lambda>t. toLowerCase (address t)) ts
            in case fetchPrice e s addresses of
                 (Inl err, s1) \<Rightarrow> (Inr (cached_fallback s1 addresses), s1)
               | (Inr priceData, s1) \<Rightarrow>
                   (case fetchVolatility e s1 addresses of
                      (Inl err, s2) \<Rightarrow> (Inr (cached_fallback s2 addresses), s2)
                    | (Inr volatilityData, s2) \<Rightarrow>
                        (Inr (combine priceData volatilityData addresses), s2)))"

definition getPriceData :: "env \<Rightarrow> service \<Rightarrow> token list option \<Rightarrow> (error + price_data) \<times> service" where
  "getPriceData = getPriceData_with fetchPriceData fetchVolatilityData"

text \<open>
  The identifiers the service is called with are token addresses in lower case:
  \<^verbatim>\<open>0x\<close> and forty hexadecimal digits.
\<close>

definition is_address :: "string \<Rightarrow> bool" where
  "is_address a \<longleftrightarrow>
     length a = 42 \<and> take 2 a = ''0x'' \<and> (\<forall>c \<in> set (drop 2 a). c \<in> set ''0123456789abcdef'')"

text \<open>
  The price the provider gives for \<open>a\<close> when the call of \<^verbatim>\<open>Math.random()\<close> it may need
  is the \<open>n\<close>-th one: the entry of the stub table, or else ten times the random number
  plus 0.1.
\<close>

definition provider_price :: "env \<Rightarrow> nat \<Rightarrow> string \<Rightarrow> real" where
  "provider_price e n a =
     (case mockPrices a of
        None \<Rightarrow> math_random e n * 10 + 0.1
      | Some m \<Rightarrow> if m \<noteq> 0 then m else math_random e n * 10 + 0.1)"

text \<open>
  The cached price of \<open>a\<close> comes from the provider, through a random number drawn no
  earlier than the \<open>d\<close>-th call and, where the stub table has no entry, before now.
\<close>

definition provided :: "env \<Rightarrow> string \<Rightarrow> nat \<Rightarrow> service \<Rightarrow> bool" where
  "provided e a d s \<longleftrightarrow>
     (\<exists>n. d \<le> n \<and> n \<le> draws s \<and> (mockPrices a = None \<longrightarrow> n < draws s) \<and>
          priceCache s a = Some (provider_price e n a))"

text \<open>
  The state of the second loop of \<^verbatim>\<open>_fetchPriceData\<close> once it has fetched \<open>a\<close> anew:
  the entry of \<open>a\<close> carries the time of this call, its value comes from the provider and
  the result holds that value.
\<close>

definition refetched :: "env \<Rightarrow> string \<Rightarrow> nat \<Rightarrow> (string \<rightharpoonup> real) \<times> service \<Rightarrow> bool" where
  "refetched e a d rs \<longleftrightarrow>
     priceCache (snd rs) (time_key a) = Some (now e) \<and>
     fst rs a = priceCache (snd rs) a \<and> provided e a d (snd rs)"


section \<open>Facts about the JavaScript helpers\<close>

lemma or_default_None: "or_default None d = d"
  by (simp add: or_default_def)

lemma or_default_Some: "or_default (Some v) d = (if v = 0 then d else v)"
  by (simp add: or_default_def)

lemma truthy_simps:
  "truthy None = False" "truthy (Some v) = (v \<noteq> 0)"
  by (simp_all add: truthy_def)

lemma js_sort_Nil: "js_sort cmp [] = []"
  by (simp add: js_sort_def)

lemma js_sort_Cons: "js_sort cmp (x # xs) = insert_by cmp x (js_sort cmp xs)"
  by (simp add: js_sort_def)

lemma mset_insert_by: "mset (insert_by cmp x ys) = add_mset x (mset ys)"
  by (induction ys) auto

lemma mset_js_sort: "mset (js_sort cmp xs) = mset xs"
  by (induction xs) (simp_all add: js_sort_Nil js_sort_Cons mset_insert_by)

lemma set_js_sort: "set (js_sort cmp xs) = set xs"
  using mset_js_sort [of cmp xs] by (metis set_mset_mset)

lemma js_sort_eq_Nil: "js_sort cmp xs = [] \<longleftrightarrow> xs = []"
  using mset_js_sort [of cmp xs] by (metis mset_zero_iff)

lemma first_hd: "xs \<noteq> [] \<Longrightarrow> first xs = Some (hd xs)"
  by (cases xs) (simp_all add: first_def)

lemma toLowerCase_0xabc1: "toLowerCase ''0xAbC1'' = ''0xabc1''"
  by code_simp

lemma toLowerCase_0xdef2: "toLowerCase ''0xDEF2'' = ''0xdef2''"
  by code_simp

text \<open>
  With the comparator of the scorer, the insertion sort is the library's stable sort on
  the negated score; the contract of \<^verbatim>\<open>sort\<close> leaves room for no other result.
\<close>

lemma insert_by_score_insort:
  "insert_by by_score_desc x ys = insort_key (\<lambda>t. - score t) x ys"
  by (induction ys) (simp_all add: by_score_desc_def)

lemma js_sort_by_score_sort_key:
  "js_sort by_score_desc xs = sort_key (\<lambda>t. - score t) xs"
  by (induction xs) (simp_all add: js_sort_Nil js_sort_Cons insert_by_score_insort)

lemma sorted_js_sort_by_score:
  "sorted_wrt (\<lambda>a b. score b \<le> score a) (js_sort by_score_desc xs)"
proof -
  have "sorted (map (\<lambda>t. - score t) (sort_key (\<lambda>t. - score t) xs))"
    by (rule sorted_sort_key)
  then show ?thesis
    by (simp add: js_sort_by_score_sort_key sorted_map)
qed

lemma sorted_wrt_hd_max:
  "sorted_wrt (\<lambda>a b. score b \<le> score a) xs \<Longrightarrow> x \<in> set xs \<Longrightarrow> score x \<le> score (hd xs)"
  by (cases xs) auto

lemma sort_contract_by_score_unique:
  assumes "sort_contract by_score_desc xs ys"
  shows "ys = js_sort by_score_desc xs"
proof -
  let ?f = "\<lambda>t. - score t"
  have perm: "mset ys = mset xs"
    using assms by (simp add: sort_contract_def)
  then have sets: "set ys = set xs"
    by (metis set_mset_mset)
  have "sorted_wrt (\<lambda>a b. by_score_desc a b \<le> 0) ys"
    using assms by (simp add: sort_contract_def)
  then have srt: "sorted (map ?f ys)"
    by (simp add: sorted_map by_score_desc_def)
  have stable: "filter (\<lambda>x. ?f k = ?f x) ys = filter (\<lambda>x. ?f k = ?f x) xs" if "k \<in> set ys" for k
  proof -
    have eq: "(\<lambda>y. by_score_desc k y = 0) = (\<lambda>x. ?f k = ?f x)"
      by (auto simp add: by_score_desc_def fun_eq_iff)
    have "filter (\<lambda>y. by_score_desc k y = 0) ys = filter (\<lambda>y. by_score_desc k y = 0) xs"
      using assms that sets by (simp add: sort_contract_def)
    then show ?thesis
      by (simp only: eq)
  qed
  have "sort_key ?f xs = ys"
    using perm stable srt by (rule properties_for_sort_key)
  then show ?thesis
    by (simp add: js_sort_by_score_sort_key)
qed

lemma js_sort_meets_contract: "sort_contract by_score_desc xs (js_sort by_score_desc xs)"
proof -
  let ?f = "\<lambda>t. - score t"
  have "filter (\<lambda>y. by_score_desc x y = 0) (sort_key ?f xs) = filter (\<lambda>y. by_score_desc x y = 0) xs" for x
  proof -
    have eq: "(\<lambda>y. by_score_desc x y = 0) = (\<lambda>y. ?f y = ?f x)"
      by (auto simp add: by_score_desc_def fun_eq_iff)
    show ?thesis
      by (simp only: eq sort_key_stable)
  qed
  moreover have "sorted_wrt (\<lambda>a b. by_score_desc a b \<le> 0) (js_sort by_score_desc xs)"
    using sorted_js_sort_by_score [of xs] by (simp add: by_score_desc_def)
  ultimately show ?thesis
    by (simp add: sort_contract_def mset_js_sort js_sort_by_score_sort_key)
qed

section \<open>Facts about the scorer\<close>

lemma weights_sum: "weights_balance + weights_volatility + weights_slippage = 1"
  by (simp add: weights_balance_def weights_volatility_def weights_slippage_def)

text \<open>Two bounds on the exponential: \<open>ln 5 \<ge> 3/2\<close> and \<open>exp 5 \<le> 1000\<close>.\<close>

lemma exp_eighth_le: "exp (1 / 8 :: real) \<le> 73 / 64"
  using exp_bound [of "1 / 8 :: real"] by (simp add: power2_eq_square)

lemma exp_three_halves_le: "exp (3 / 2 :: real) \<le> 5"
proof -
  have "exp (3 / 2 :: real) = exp (1 / 8) ^ 12"
    by (simp flip: exp_of_nat_mult)
  also have "\<dots> \<le> (73 / 64) ^ 12"
    using exp_eighth_le by (intro power_mono) auto
  also have "\<dots> \<le> 5"
    by (simp add: power_divide)
  finally show ?thesis .
qed

lemma ln_five_ge: "3 / 2 \<le> ln (5 :: real)"
  using exp_three_halves_le ln_ge_iff [of "5 :: real" "3 / 2"] by simp

lemma exp_five_le: "exp (5 :: real) \<le> 1000"
proof -
  have "exp (5 :: real) = exp 1 ^ 5"
    by (simp flip: exp_of_nat_mult)
  also have "\<dots> \<le> 3 ^ 5"
    using exp_le by (intro power_mono) auto
  finally show ?thesis by simp
qed

lemma normalizeBalance_low: "u < 5 \<Longrightarrow> normalizeBalance u = 3 / 10 * (u / 5)"
  by (simp add: normalizeBalance_def)

lemma normalizeBalance_high: "5 \<le> u \<Longrightarrow> normalizeBalance u = min 1 (ln u / 5)"
  by (simp add: normalizeBalance_def)

lemma normalizeBalance_top: "exp 5 \<le> u \<Longrightarrow> normalizeBalance u = 1"
proof -
  assume h: "exp 5 \<le> u"
  have "5 < exp (5 :: real)"
    using exp_ge_add_one_self [of "5 :: real"] by simp
  with h have u5: "5 \<le> u" and upos: "0 < u" by simp_all
  from h upos have "5 \<le> ln u"
    by (simp add: ln_ge_iff)
  with u5 show ?thesis
    by (simp add: normalizeBalance_high)
qed

lemma scoreTokens_nonempty:
  "ts \<noteq> [] \<Longrightarrow>
   scoreTokens (Some ts) pd sd =
     Some \<lparr>recommendedToken = first (js_sort by_score_desc (map (scoreToken pd sd) ts)),
           allScores = js_sort by_score_desc (map (scoreToken pd sd) ts)\<rparr>"
  by (simp add: scoreTokens_def Let_def)

lemma scoreToken_zero_usd:
  "or_default (balance t) 0 * or_default (Option.bind (pd (toLowerCase (address t))) price) 0 \<le> 0 \<Longrightarrow>
   scoreToken pd sd t =
     \<lparr>tok = t, usdBalance = None, volatilityScore = None, slippageScore = None,
      score = 0, reasons = [''Zero balance'']\<rparr>"
  by (simp add: scoreToken_def Let_def)

lemma scoreToken_scored:
  assumes "balance t = Some b" and "0 < b"
    and "pd (toLowerCase (address t)) = Some e" and "price e = Some p" and "0 < p"
  shows "scoreToken pd sd t =
     \<lparr>tok = t, usdBalance = Some (b * p),
      volatilityScore = Some (1 - or_default (volatility24h e) 100 / 100),
      slippageScore =
        Some (1 - or_default (Option.bind (sd (toLowerCase (address t))) slippage) 10 / 10),
      score = weights_balance * normalizeBalance (b * p)
            + weights_volatility * (1 - or_default (volatility24h e) 100 / 100)
            + weights_slippage *
                (1 - or_default (Option.bind (sd (toLowerCase (address t))) slippage) 10 / 10),
      reasons = generateReasons (b * p) (or_default (volatility24h e) 100)
                  (or_default (Option.bind (sd (toLowerCase (address t))) slippage) 10)\<rparr>"
proof -
  have "\<not> b * p \<le> 0"
    using assms by (simp add: mult_le_0_iff)
  then show ?thesis
    using assms by (simp add: scoreToken_def Let_def or_default_Some)
qed

section \<open>The scorer: claims\<close>

text \<open>
  Claim C9. For an absent token list and for an empty one, \<^verbatim>\<open>scoreTokens\<close> returns
  \<^verbatim>\<open>null\<close>, whatever the price and slippage data are: the guard comes before anything
  else is read, so nothing is thrown.
\<close>

theorem scoreTokens_no_tokens:
  "scoreTokens None priceData slippageData = None \<and>
   scoreTokens (Some []) priceData slippageData = None"
  by (simp add: scoreTokens_def)

text \<open>
  Claim C7. The balance sub-score never decreases as the USD balance grows: for
  \<open>0 \<le> u1 \<le> u2\<close>, \<^verbatim>\<open>_normalizeBalance(u1) \<le> _normalizeBalance(u2)\<close>, within the linear
  part below 5 USD, within the logarithmic part from 5 USD on, and across the jump
  between them (\<open>0.3 \<le> ln 5 / 5\<close>).
\<close>

theorem normalizeBalance_mono:
  assumes "0 \<le> u1" and "u1 \<le> u2"
  shows "normalizeBalance u1 \<le> normalizeBalance u2"
proof -
  consider (low) "u2 < 5" | (jump) "u1 < 5" "5 \<le> u2" | (high) "5 \<le> u1"
    by linarith
  then show ?thesis
  proof cases
    case low
    with assms show ?thesis
      by (simp add: normalizeBalance_low)
  next
    case jump
    have "ln 5 \<le> ln u2"
      using jump by simp
    with ln_five_ge have "3 / 10 \<le> ln u2 / 5"
      by simp
    moreover have "3 / 10 * (u1 / 5) \<le> 3 / 10"
      using jump by simp
    ultimately show ?thesis
      using jump by (simp add: normalizeBalance_low normalizeBalance_high)
  next
    case high
    with assms have u2: "5 \<le> u2"
      by simp
    from high assms have "ln u1 / 5 \<le> ln u2 / 5"
      by simp
    then have "min 1 (ln u1 / 5) \<le> min 1 (ln u2 / 5)"
      by (rule min.mono [OF order_refl])
    then show ?thesis
      by (simp only: normalizeBalance_high [OF high] normalizeBalance_high [OF u2])
  qed
qed

theorem normalizeBalance_mono_witness:
  "(0::real) \<le> 4 \<and> (4::real) \<le> 5 \<and> normalizeBalance 4 \<le> normalizeBalance 5"
  using normalizeBalance_mono [of 4 5] by simp

text \<open>
  Claim C3. For a non-empty token list \<^verbatim>\<open>scoreTokens\<close> returns a result whose
  \<^verbatim>\<open>allScores\<close> is the scored tokens, rearranged in descending order of score, and
  whose \<^verbatim>\<open>recommendedToken\<close> is the head of that list; no scored token has a higher
  score than the recommended one.
\<close>

theorem scoreTokens_ranked:
  assumes "ts \<noteq> []"
  shows "\<exists>r. scoreTokens (Some ts) priceData slippageData = Some r
           \<and> mset (allScores r) = mset (map (scoreToken priceData slippageData) ts)
           \<and> sorted_wrt (\<lambda>a b. score b \<le> score a) (allScores r)
           \<and> allScores r \<noteq> []
           \<and> recommendedToken r = Some (hd (allScores r))
           \<and> (\<forall>x \<in> set (allScores r). score x \<le> score (hd (allScores r)))"
proof -
  let ?ys = "js_sort by_score_desc (map (scoreToken priceData slippageData) ts)"
  let ?r = "\<lparr>recommendedToken = first ?ys, allScores = ?ys\<rparr>"
  have run: "scoreTokens (Some ts) priceData slippageData = Some ?r"
    using assms by (rule scoreTokens_nonempty)
  have perm: "mset ?ys = mset (map (scoreToken priceData slippageData) ts)"
    by (rule mset_js_sort)
  have srt: "sorted_wrt (\<lambda>a b. score b \<le> score a) ?ys"
    by (rule sorted_js_sort_by_score)
  have ne: "?ys \<noteq> []"
    using assms by (simp add: js_sort_eq_Nil)
  have top: "first ?ys = Some (hd ?ys)"
    using ne by (rule first_hd)
  have best: "\<forall>x \<in> set ?ys. score x \<le> score (hd ?ys)"
    using srt by (blast intro: sorted_wrt_hd_max)
  show ?thesis
    using run perm srt ne top best by simp
qed

theorem scoreTokens_ranked_witness:
  "\<exists>r. scoreTokens
          (Some [\<lparr>address = ''0xAbC1'', symbol = ''TKN'', balance = None\<rparr>,
                 \<lparr>address = ''0xDEF2'', symbol = ''OTH'', balance = Some 2\<rparr>])
          [''0xdef2'' \<mapsto> \<lparr>price = Some 1, volatility24h = Some 5\<rparr>]
          [''0xdef2'' \<mapsto> \<lparr>slippage = Some 1, estimatedFee = Some (1 / 2)\<rparr>] = Some r
       \<and> mset (allScores r) =
           mset (map (scoreToken [''0xdef2'' \<mapsto> \<lparr>price = Some 1, volatility24h = Some 5\<rparr>]
                        [''0xdef2'' \<mapsto> \<lparr>slippage = Some 1, estimatedFee = Some (1 / 2)\<rparr>])
                  [\<lparr>address = ''0xAbC1'', symbol = ''TKN'', balance = None\<rparr>,
                   \<lparr>address = ''0xDEF2'', symbol = ''OTH'', balance = Some 2\<rparr>])
       \<and> sorted_wrt (\<lambda>a b. score b \<le> score a) (allScores r)
       \<and> allScores r \<noteq> []
       \<and> recommendedToken r = Some (hd (allScores r))
       \<and> (\<forall>x \<in> set (allScores r). score x \<le> score (hd (allScores r)))"
  by (rule scoreTokens_ranked) simp

text \<open>
  Claim C10. A token whose balance does not parse (\<^verbatim>\<open>parseFloat\<close> yields NaN) is scored
  as a token of balance 0: its entry in \<^verbatim>\<open>allScores\<close> has score 0 and the single
  reason \<^verbatim>\<open>Zero balance\<close>.
\<close>

theorem scoreTokens_unparsable_balance:
  assumes "t \<in> set ts" and "balance t = None"
  shows "\<exists>r. scoreTokens (Some ts) priceData slippageData = Some r
           \<and> \<lparr>tok = t, usdBalance = None, volatilityScore = None, slippageScore = None,
               score = 0, reasons = [''Zero balance'']\<rparr> \<in> set (allScores r)"
proof -
  have ne: "ts \<noteq> []"
    using assms(1) by auto
  have "scoreToken priceData slippageData t =
           \<lparr>tok = t, usdBalance = None, volatilityScore = None, slippageScore = None,
            score = 0, reasons = [''Zero balance'']\<rparr>"
    using assms(2) by (simp add: scoreToken_zero_usd or_default_None)
  then have "\<lparr>tok = t, usdBalance = None, volatilityScore = None, slippageScore = None,
            score = 0, reasons = [''Zero balance'']\<rparr>
          \<in> set (js_sort by_score_desc (map (scoreToken priceData slippageData) ts))"
    using assms(1) by (simp add: set_js_sort image_iff) metis
  then show ?thesis
    by (simp add: scoreTokens_nonempty [OF ne])
qed

theorem scoreTokens_unparsable_balance_witness:
  "\<exists>r. scoreTokens
          (Some [\<lparr>address = ''0xAbC1'', symbol = ''TKN'', balance = None\<rparr>,
                 \<lparr>address = ''0xDEF2'', symbol = ''OTH'', balance = Some 2\<rparr>])
          [''0xabc1'' \<mapsto> \<lparr>price = Some 3, volatility24h = Some 5\<rparr>]
          [''0xabc1'' \<mapsto> \<lparr>slippage = Some 1, estimatedFee = Some (1 / 2)\<rparr>] = Some r
       \<and> \<lparr>tok = \<lparr>address = ''0xAbC1'', symbol = ''TKN'', balance = None\<rparr>,
           usdBalance = None, volatilityScore = None, slippageScore = None,
           score = 0, reasons = [''Zero balance'']\<rparr> \<in> set (allScores r)"
  by (rule scoreTokens_unparsable_balance) simp_all

text \<open>
  Claim C8. The volatility and slippage sub-scores are not clamped at 0. For a token of
  positive balance and price, a volatility \<open>v > 100\<close> gives the sub-score
  \<open>1 - v / 100 < 0\<close> (\<open>-0.5\<close> at 150), a slippage \<open>sl > 10\<close> gives \<open>1 - sl / 10 < 0\<close>,
  and the negative value enters the weighted sum as it is, so the composite score is
  lower than the other two terms alone.
\<close>

theorem subscores_not_clamped:
  assumes "balance t = Some b" and "0 < b"
    and "priceData (toLowerCase (address t)) = Some e" and "price e = Some p" and "0 < p"
  shows "(\<forall>v. volatility24h e = Some v \<longrightarrow> 100 < v \<longrightarrow>
            volatilityScore (scoreToken priceData slippageData t) = Some (1 - v / 100)
            \<and> 1 - v / 100 < 0
            \<and> (\<exists>ss. slippageScore (scoreToken priceData slippageData t) = Some ss
                 \<and> score (scoreToken priceData slippageData t)
                     = weights_balance * normalizeBalance (b * p)
                       + weights_volatility * (1 - v / 100) + weights_slippage * ss
                 \<and> score (scoreToken priceData slippageData t)
                     < weights_balance * normalizeBalance (b * p) + weights_slippage * ss))
       \<and> (volatility24h e = Some 150 \<longrightarrow>
            volatilityScore (scoreToken priceData slippageData t) = Some (- (1 / 2)))
       \<and> (\<forall>x sl. slippageData (toLowerCase (address t)) = Some x \<longrightarrow> slippage x = Some sl \<longrightarrow>
            10 < sl \<longrightarrow>
            slippageScore (scoreToken priceData slippageData t) = Some (1 - sl / 10)
            \<and> 1 - sl / 10 < 0
            \<and> (\<exists>vs. volatilityScore (scoreToken priceData slippageData t) = Some vs
                 \<and> score (scoreToken priceData slippageData t)
                     = weights_balance * normalizeBalance (b * p)
                       + weights_volatility * vs + weights_slippage * (1 - sl / 10)
                 \<and> score (scoreToken priceData slippageData t)
                     < weights_balance * normalizeBalance (b * p) + weights_volatility * vs))"
proof -
  have run: "scoreToken priceData slippageData t =
     \<lparr>tok = t, usdBalance = Some (b * p),
      volatilityScore = Some (1 - or_default (volatility24h e) 100 / 100),
      slippageScore =
        Some (1 - or_default (Option.bind (slippageData (toLowerCase (address t))) slippage) 10 / 10),
      score = weights_balance * normalizeBalance (b * p)
            + weights_volatility * (1 - or_default (volatility24h e) 100 / 100)
            + weights_slippage *
                (1 - or_default (Option.bind (slippageData (toLowerCase (address t))) slippage) 10 / 10),
      reasons = generateReasons (b * p) (or_default (volatility24h e) 100)
                  (or_default (Option.bind (slippageData (toLowerCase (address t))) slippage) 10)\<rparr>"
    using assms by (rule scoreToken_scored)
  have vol: "volatility24h e = Some v \<Longrightarrow> 100 < v \<Longrightarrow>
            volatilityScore (scoreToken priceData slippageData t) = Some (1 - v / 100)
            \<and> 1 - v / 100 < 0
            \<and> (\<exists>ss. slippageScore (scoreToken priceData slippageData t) = Some ss
                 \<and> score (scoreToken priceData slippageData t)
                     = weights_balance * normalizeBalance (b * p)
                       + weights_volatility * (1 - v / 100) + weights_slippage * ss
                 \<and> score (scoreToken priceData slippageData t)
                     < weights_balance * normalizeBalance (b * p) + weights_slippage * ss)" for v
    by (simp add: run or_default_Some weights_volatility_def)
  have slip: "slippageData (toLowerCase (address t)) = Some x \<Longrightarrow> slippage x = Some sl \<Longrightarrow>
            10 < sl \<Longrightarrow>
            slippageScore (scoreToken priceData slippageData t) = Some (1 - sl / 10)
            \<and> 1 - sl / 10 < 0
            \<and> (\<exists>vs. volatilityScore (scoreToken priceData slippageData t) = Some vs
                 \<and> score (scoreToken priceData slippageData t)
                     = weights_balance * normalizeBalance (b * p)
                       + weights_volatility * vs + weights_slippage * (1 - sl / 10)
                 \<and> score (scoreToken priceData slippageData t)
                     < weights_balance * normalizeBalance (b * p) + weights_volatility * vs)" for x sl
    by (simp add: run or_default_Some weights_slippage_def)
  have at150: "volatility24h e = Some 150 \<Longrightarrow>
            volatilityScore (scoreToken priceData slippageData t) = Some (- (1 / 2))"
    by (simp add: run or_default_Some)
  show ?thesis
    using vol slip at150 by blast
qed

theorem subscores_not_clamped_witness:
  "volatilityScore
     (scoreToken [''0xabc1'' \<mapsto> \<lparr>price = Some 2, volatility24h = Some 150\<rparr>]
        [''0xabc1'' \<mapsto> \<lparr>slippage = Some 12, estimatedFee = Some 6\<rparr>]
        \<lparr>address = ''0xAbC1'', symbol = ''TKN'', balance = Some 10\<rparr>) = Some (- (1 / 2))
   \<and> slippageScore
     (scoreToken [''0xabc1'' \<mapsto> \<lparr>price = Some 2, volatility24h = Some 150\<rparr>]
        [''0xabc1'' \<mapsto> \<lparr>slippage = Some 12, estimatedFee = Some 6\<rparr>]
        \<lparr>address = ''0xAbC1'', symbol = ''TKN'', balance = Some 10\<rparr>) = Some (- (1 / 5))"
  using subscores_not_clamped
    [of "\<lparr>address = ''0xAbC1'', symbol = ''TKN'', balance = Some 10\<rparr>" 10
        "[''0xabc1'' \<mapsto> \<lparr>price = Some 2, volatility24h = Some 150\<rparr>]"
        "\<lparr>price = Some 2, volatility24h = Some 150\<rparr>" 2
        "[''0xabc1'' \<mapsto> \<lparr>slippage = Some 12, estimatedFee = Some 6\<rparr>]"]
  by (simp add: toLowerCase_0xabc1)

text \<open>
  Claim C1 states that a token with a positive balance and price 0 gets score 0 with the
  reason \<^verbatim>\<open>No price data available\<close>. In the source the test \<^verbatim>\<open>usdBalance <= 0\<close>
  comes first and \<^verbatim>\<open>usdBalance\<close> is balance times price, so such a token leaves
  through the first early return: score 0 with the reason \<^verbatim>\<open>Zero balance\<close>.
\<close>

theorem unpriced_token_reports_zero_balance:
  assumes "balance t = Some b" and "0 < b"
    and "priceData (toLowerCase (address t)) = Some e" and "price e = Some 0"
  shows "scoreToken priceData slippageData t =
           \<lparr>tok = t, usdBalance = None, volatilityScore = None, slippageScore = None,
            score = 0, reasons = [''Zero balance'']\<rparr>
         \<and> reasons (scoreToken priceData slippageData t) \<noteq> [''No price data available'']"
proof -
  have "scoreToken priceData slippageData t =
           \<lparr>tok = t, usdBalance = None, volatilityScore = None, slippageScore = None,
            score = 0, reasons = [''Zero balance'']\<rparr>"
    using assms by (simp add: scoreToken_zero_usd or_default_Some)
  then show ?thesis by simp
qed

theorem unpriced_token_reports_zero_balance_witness:
  "scoreToken [''0xabc1'' \<mapsto> \<lparr>price = Some 0, volatility24h = Some 5\<rparr>]
      [''0xabc1'' \<mapsto> \<lparr>slippage = Some 1, estimatedFee = Some (1 / 2)\<rparr>]
      \<lparr>address = ''0xAbC1'', symbol = ''TKN'', balance = Some 10\<rparr>
   = \<lparr>tok = \<lparr>address = ''0xAbC1'', symbol = ''TKN'', balance = Some 10\<rparr>,
      usdBalance = None, volatilityScore = None, slippageScore = None,
      score = 0, reasons = [''Zero balance'']\<rparr>"
  using unpriced_token_reports_zero_balance
    [of "\<lparr>address = ''0xAbC1'', symbol = ''TKN'', balance = Some 10\<rparr>" 10
        "[''0xabc1'' \<mapsto> \<lparr>price = Some 0, volatility24h = Some 5\<rparr>]"
        "\<lparr>price = Some 0, volatility24h = Some 5\<rparr>"
        "[''0xabc1'' \<mapsto> \<lparr>slippage = Some 1, estimatedFee = Some (1 / 2)\<rparr>]"]
  by (simp add: toLowerCase_0xabc1)

text \<open>
  Claim C2 states that the weights sum to 1 and that a token with a USD balance of at
  least \<open>e^5\<close>, volatility 0 and slippage 0 gets the composite score 1. The weights do
  sum to 1, but \<^verbatim>\<open>volatility24h || 100\<close> and \<^verbatim>\<open>slippage || 10\<close> replace a value of 0
  by the worst case, so both sub-scores are 0 and the composite score is 0.4.
\<close>

theorem perfect_token_scores_two_fifths:
  assumes "balance t = Some b" and "0 < b"
    and "priceData (toLowerCase (address t)) = Some e" and "price e = Some p" and "0 < p"
    and "exp 5 \<le> b * p"
    and "volatility24h e = Some 0"
    and "slippageData (toLowerCase (address t)) = Some x" and "slippage x = Some 0"
  shows "weights_balance + weights_volatility + weights_slippage = 1
         \<and> usdBalance (scoreToken priceData slippageData t) = Some (b * p)
         \<and> volatilityScore (scoreToken priceData slippageData t) = Some 0
         \<and> slippageScore (scoreToken priceData slippageData t) = Some 0
         \<and> score (scoreToken priceData slippageData t) = 2 / 5"
proof -
  have run: "scoreToken priceData slippageData t =
     \<lparr>tok = t, usdBalance = Some (b * p),
      volatilityScore = Some (1 - or_default (volatility24h e) 100 / 100),
      slippageScore =
        Some (1 - or_default (Option.bind (slippageData (toLowerCase (address t))) slippage) 10 / 10),
      score = weights_balance * normalizeBalance (b * p)
            + weights_volatility * (1 - or_default (volatility24h e) 100 / 100)
            + weights_slippage *
                (1 - or_default (Option.bind (slippageData (toLowerCase (address t))) slippage) 10 / 10),
      reasons = generateReasons (b * p) (or_default (volatility24h e) 100)
                  (or_default (Option.bind (slippageData (toLowerCase (address t))) slippage) 10)\<rparr>"
    using assms(1-5) by (rule scoreToken_scored)
  have top: "normalizeBalance (b * p) = 1"
    using assms(6) by (rule normalizeBalance_top)
  show ?thesis
    using assms(7-9) by (simp add: run top or_default_Some weights_balance_def weights_volatility_def
        weights_slippage_def)
qed

theorem perfect_token_scores_two_fifths_witness:
  "score (scoreToken [''0xabc1'' \<mapsto> \<lparr>price = Some 1, volatility24h = Some 0\<rparr>]
      [''0xabc1'' \<mapsto> \<lparr>slippage = Some 0, estimatedFee = Some 0\<rparr>]
      \<lparr>address = ''0xAbC1'', symbol = ''TKN'', balance = Some 1000\<rparr>) = 2 / 5"
  using perfect_token_scores_two_fifths
    [of "\<lparr>address = ''0xAbC1'', symbol = ''TKN'', balance = Some 1000\<rparr>" 1000
        "[''0xabc1'' \<mapsto> \<lparr>price = Some 1, volatility24h = Some 0\<rparr>]"
        "\<lparr>price = Some 1, volatility24h = Some 0\<rparr>" 1
        "[''0xabc1'' \<mapsto> \<lparr>slippage = Some 0, estimatedFee = Some 0\<rparr>]"
        "\<lparr>slippage = Some 0, estimatedFee = Some 0\<rparr>"]
    exp_five_le
  by (simp add: toLowerCase_0xabc1)

text \<open>
  The ranking does not depend on the sorting algorithm of the engine: any two runs of
  \<^verbatim>\<open>sort\<close> on the scored list that meet the contract of the language return the same
  list, which is the one the model computes.
\<close>

lemma scoreTokens_ranking_unique:
  assumes "ts \<noteq> []"
    and "sort_contract by_score_desc (map (scoreToken priceData slippageData) ts) ys1"
    and "sort_contract by_score_desc (map (scoreToken priceData slippageData) ts) ys2"
  shows "ys1 = ys2 \<and>
         scoreTokens (Some ts) priceData slippageData =
           Some \<lparr>recommendedToken = first ys1, allScores = ys1\<rparr>"
proof -
  let ?xs = "map (scoreToken priceData slippageData) ts"
  have one: "ys1 = js_sort by_score_desc ?xs"
    using assms(2) by (rule sort_contract_by_score_unique)
  have two: "ys2 = js_sort by_score_desc ?xs"
    using assms(3) by (rule sort_contract_by_score_unique)
  show ?thesis
    using one two scoreTokens_nonempty [OF assms(1), of priceData slippageData] by simp
qed

lemma scoreTokens_ranking_example:
  "scoreTokens
     (Some [\<lparr>address = ''0xAbC1'', symbol = ''TKN'', balance = None\<rparr>,
            \<lparr>address = ''0xDEF2'', symbol = ''OTH'', balance = Some 2\<rparr>])
     [''0xdef2'' \<mapsto> \<lparr>price = Some 1, volatility24h = Some 5\<rparr>]
     [''0xdef2'' \<mapsto> \<lparr>slippage = Some 1, estimatedFee = Some (1 / 2)\<rparr>]
   = Some \<lparr>recommendedToken =
             Some \<lparr>tok = \<lparr>address = ''0xDEF2'', symbol = ''OTH'', balance = Some 2\<rparr>,
                   usdBalance = Some 2, volatilityScore = Some (19 / 20),
                   slippageScore = Some (9 / 10), score = 603 / 1000,
                   reasons = [''Low balance ($2.00) may limit options'']\<rparr>,
           allScores =
             [\<lparr>tok = \<lparr>address = ''0xDEF2'', symbol = ''OTH'', balance = Some 2\<rparr>,
               usdBalance = Some 2, volatilityScore = Some (19 / 20),
               slippageScore = Some (9 / 10), score = 603 / 1000,
               reasons = [''Low balance ($2.00) may limit options'']\<rparr>,
              \<lparr>tok = \<lparr>address = ''0xAbC1'', symbol = ''TKN'', balance = None\<rparr>,
               usdBalance = None, volatilityScore = None, slippageScore = None,
               score = 0, reasons = [''Zero balance'']\<rparr>]\<rparr>"
proof -
  let ?pd = "[''0xdef2'' \<mapsto> \<lparr>price = Some 1, volatility24h = Some 5\<rparr>]"
  let ?sd = "[''0xdef2'' \<mapsto> \<lparr>slippage = Some 1, estimatedFee = Some (1 / 2)\<rparr>]"
  let ?t1 = "\<lparr>address = ''0xAbC1'', symbol = ''TKN'', balance = None\<rparr>"
  let ?t2 = "\<lparr>address = ''0xDEF2'', symbol = ''OTH'', balance = Some 2\<rparr>"
  let ?x1 = "\<lparr>tok = ?t1, usdBalance = None, volatilityScore = None, slippageScore = None,
               score = 0, reasons = [''Zero balance'']\<rparr>"
  let ?x2 = "\<lparr>tok = ?t2, usdBalance = Some 2, volatilityScore = Some (19 / 20),
               slippageScore = Some (9 / 10), score = 603 / 1000,
               reasons = [''Low balance ($2.00) may limit options'']\<rparr>"
  have reasons: "generateReasons 2 5 1 = [''Low balance ($2.00) may limit options'']"
    by code_simp
  have one: "scoreToken ?pd ?sd ?t1 = ?x1"
    by (simp add: scoreToken_def or_default_def Let_def)
  have two: "scoreToken ?pd ?sd ?t2 = ?x2"
    by (simp add: scoreToken_def toLowerCase_0xdef2 or_default_def Let_def reasons
        normalizeBalance_low weights_balance_def weights_volatility_def weights_slippage_def)
  have run: "sort_contract by_score_desc (map (scoreToken ?pd ?sd) [?t1, ?t2]) [?x2, ?x1]"
    by (simp add: one two sort_contract_def by_score_desc_def)
  have ne: "[?t1, ?t2] \<noteq> []"
    by simp
  show ?thesis
    using scoreTokens_ranking_unique [OF ne run run] by (simp add: first_def)
qed

section \<open>Facts about the price service\<close>

lemma underscore_not_in_address: "is_address a \<Longrightarrow> CHR ''_'' \<notin> set a"
proof
  assume a: "is_address a" and u: "CHR ''_'' \<in> set a"
  have "set a = set (take 2 a) \<union> set (drop 2 a)"
    by (metis append_take_drop_id set_append)
  with u have "CHR ''_'' \<in> set (take 2 a) \<or> CHR ''_'' \<in> set (drop 2 a)"
    by simp
  then show False
    using a by (auto simp add: is_address_def)
qed

lemma time_key_inject: "time_key a = time_key b \<longleftrightarrow> a = b"
  by (simp add: time_key_def)

lemma time_key_neq_self: "time_key a \<noteq> a" "a \<noteq> time_key a"
  by (simp_all add: time_key_def)

lemma time_key_not_address: "is_address a \<Longrightarrow> time_key b \<noteq> a" "is_address a \<Longrightarrow> a \<noteq> time_key b"
  using underscore_not_in_address [of a] by (auto simp add: time_key_def)

lemma fresh_price_service:
  "priceCache (snd (fresh_price e s a)) = priceCache s"
  "volatilityCache (snd (fresh_price e s a)) = volatilityCache s"
  "cacheTTL (snd (fresh_price e s a)) = cacheTTL s"
  by (simp_all add: fresh_price_def random_price_def Math_random_def split: option.splits)

lemma price_needs_fetch_iff: "price_needs_fetch t s a \<longleftrightarrow> \<not> price_is_fresh t s a"
  by (auto simp add: price_needs_fetch_def price_is_fresh_def Let_def split: option.splits)

lemma price_is_fresh_cong:
  "priceCache s1 a = priceCache s a \<Longrightarrow> priceCache s1 (time_key a) = priceCache s (time_key a) \<Longrightarrow>
   cacheTTL s1 = cacheTTL s \<Longrightarrow> price_is_fresh t s1 a = price_is_fresh t s a"
  by (simp add: price_is_fresh_def split: option.splits)

lemma price_step_fresh:
  "price_is_fresh (now e) s a \<Longrightarrow> price_step e a (r, s) = (r(a := priceCache s a), s)"
  by (simp add: price_step_def)

lemma price_step_refetch:
  "\<not> price_is_fresh (now e) s a \<Longrightarrow>
   price_step e a (r, s) =
     (r(a \<mapsto> fst (fresh_price e s a)),
      (snd (fresh_price e s a))
        \<lparr>priceCache := (priceCache s)(a \<mapsto> fst (fresh_price e s a), time_key a \<mapsto> now e)\<rparr>)"
  by (simp add: price_step_def Let_def fresh_price_service split: prod.splits)
    (metis fresh_price_service(1) snd_conv)

lemma price_step_ttl: "cacheTTL (snd (price_step e b (r, s))) = cacheTTL s"
  by (cases "price_is_fresh (now e) s b")
    (simp_all add: price_step_fresh price_step_refetch fresh_price_service)

lemma price_step_cache_other:
  "k \<noteq> b \<Longrightarrow> k \<noteq> time_key b \<Longrightarrow> priceCache (snd (price_step e b (r, s))) k = priceCache s k"
  by (cases "price_is_fresh (now e) s b")
    (simp_all add: price_step_fresh price_step_refetch)

lemma price_step_result_other: "a \<noteq> b \<Longrightarrow> fst (price_step e b (r, s)) a = r a"
  by (cases "price_is_fresh (now e) s b")
    (simp_all add: price_step_fresh price_step_refetch)

lemma cached_prices_apply:
  "fold (\<lambda>a result. result(a \<mapsto> or_default (priceCache s a) 0)) bs r a =
     (if a \<in> set bs then Some (or_default (priceCache s a) 0) else r a)"
  by (induction bs arbitrary: r) auto

text \<open>An entry that is fresh stays as it is through the second loop.\<close>

lemma fold_price_step_fresh_entry:
  assumes "priceCache s a = Some p" and "p \<noteq> 0"
    and "priceCache s (time_key a) = Some T" and "T \<noteq> 0" and "now e - T \<le> cacheTTL s"
    and "\<forall>b \<in> set bs. time_key b \<noteq> a \<and> b \<noteq> time_key a"
    and "fold (price_step e) bs (r, s) = (r', s')"
  shows "priceCache s' a = Some p \<and> priceCache s' (time_key a) = Some T
         \<and> r' a = (if a \<in> set bs then Some p else r a)"
  using assms
proof (induction bs arbitrary: r s)
  case Nil
  then show ?case by simp
next
  case (Cons b bs)
  obtain r1 s1 where step: "price_step e b (r, s) = (r1, s1)"
    by (cases "price_step e b (r, s)")
  have rest: "fold (price_step e) bs (r1, s1) = (r', s')"
    using Cons.prems(7) step by simp
  have keys: "\<forall>b \<in> set bs. time_key b \<noteq> a \<and> b \<noteq> time_key a"
    using Cons.prems(6) by simp
  have fresh: "price_is_fresh (now e) s a"
    using Cons.prems(1-5) by (simp add: price_is_fresh_def truthy_simps)
  have ttl: "cacheTTL s1 = cacheTTL s"
    using price_step_ttl [of e b r s] step by simp
  show ?case
  proof (cases "b = a")
    case True
    then have "r1 = r(a \<mapsto> p)" and "s1 = s"
      using step fresh Cons.prems(1) by (simp_all add: price_step_fresh)
    then show ?thesis
      using Cons.IH [OF _ Cons.prems(2) _ Cons.prems(4) _ keys rest] Cons.prems(1,3,5) True
      by simp
  next
    case False
    have ka: "priceCache s1 a = Some p"
      using price_step_cache_other [of a b e r s] step False Cons.prems(1,6) by auto
    have kt: "priceCache s1 (time_key a) = Some T"
      using price_step_cache_other [of "time_key a" b e r s] step False Cons.prems(3,6)
      by (auto simp add: time_key_inject)
    have ra: "r1 a = r a"
      using price_step_result_other [of a b e r s] step False by simp
    show ?thesis
      using Cons.IH [OF ka Cons.prems(2) kt Cons.prems(4) _ keys rest] Cons.prems(5) ttl ra False
      by simp
  qed
qed

text \<open>An entry that is not fresh is fetched anew when the loop reaches its address.\<close>

lemma mockPrices_nonzero: "mockPrices a = Some v \<Longrightarrow> v \<noteq> 0"
  by (auto simp add: mockPrices_def split: if_splits)

lemma fresh_price_value: "fst (fresh_price e s a) = provider_price e (draws s) a"
  by (simp add: fresh_price_def provider_price_def random_price_def Math_random_def
      split: option.splits)

lemma fresh_price_draws:
  "draws (snd (fresh_price e s a)) =
     (case mockPrices a of None \<Rightarrow> Suc (draws s) | Some m \<Rightarrow> draws s)"
  using mockPrices_nonzero [of a]
  by (simp add: fresh_price_def random_price_def Math_random_def split: option.splits)

lemma price_step_draws: "draws s \<le> draws (snd (price_step e b (r, s)))"
  by (cases "price_is_fresh (now e) s b")
    (simp_all add: price_step_fresh price_step_refetch fresh_price_draws split: option.splits)

lemma providedI:
  assumes "d \<le> n" and "n \<le> draws s" and "mockPrices a = None \<longrightarrow> n < draws s"
    and "priceCache s a = Some (provider_price e n a)"
  shows "provided e a d s"
  unfolding provided_def by (rule exI [of _ n]) (simp add: assms)

lemma providedE:
  assumes "provided e a d s"
  obtains n where "d \<le> n" and "n \<le> draws s" and "mockPrices a = None \<longrightarrow> n < draws s"
    and "priceCache s a = Some (provider_price e n a)"
  using assms unfolding provided_def by (elim exE conjE)

lemma provided_later:
  assumes "provided e a d s" and "priceCache s' a = priceCache s a" and "draws s \<le> draws s'"
  shows "provided e a d s'"
proof -
  obtain n where n: "d \<le> n" "n \<le> draws s" "mockPrices a = None \<longrightarrow> n < draws s"
      "priceCache s a = Some (provider_price e n a)"
    using assms(1) by (rule providedE)
  show ?thesis
  proof (rule providedI)
    show "d \<le> n" by (rule n(1))
    show "n \<le> draws s'" using n(2) assms(3) by simp
    show "mockPrices a = None \<longrightarrow> n < draws s'"
    proof
      assume "mockPrices a = None"
      with n(3) have "n < draws s" ..
      then show "n < draws s'"
        using assms(3) by simp
    qed
    show "priceCache s' a = Some (provider_price e n a)" using n(4) assms(2) by simp
  qed
qed

lemma provided_from:
  "provided e a d s \<Longrightarrow> d \<le> draws s"
  unfolding provided_def by auto

lemma price_step_refetch_draws:
  assumes "\<not> price_is_fresh (now e) s a"
  shows "draws (snd (price_step e a (r, s))) = draws (snd (fresh_price e s a))"
  using assms by (simp add: price_step_refetch)

lemma price_step_refetch_value:
  assumes "\<not> price_is_fresh (now e) s a"
  shows "priceCache (snd (price_step e a (r, s))) a = Some (fst (fresh_price e s a))"
  using assms by (simp add: price_step_refetch time_key_neq_self)

lemma price_step_provided_self:
  assumes "\<not> price_is_fresh (now e) s a" and "d \<le> draws s"
  shows "provided e a d (snd (price_step e a (r, s)))"
proof (rule providedI [where n = "draws s"])
  show "d \<le> draws s"
    by (rule assms(2))
  show "draws s \<le> draws (snd (price_step e a (r, s)))"
    by (rule price_step_draws)
  show "mockPrices a = None \<longrightarrow> draws s < draws (snd (price_step e a (r, s)))"
  proof
    assume "mockPrices a = None"
    then have "draws (snd (fresh_price e s a)) = Suc (draws s)"
      by (simp add: fresh_price_draws)
    then show "draws s < draws (snd (price_step e a (r, s)))"
      by (simp add: price_step_refetch_draws [OF assms(1)])
  qed
  show "priceCache (snd (price_step e a (r, s))) a = Some (provider_price e (draws s) a)"
    by (simp only: price_step_refetch_value [OF assms(1)] fresh_price_value)
qed

lemma refetched_iff:
  "refetched e a d (r, s) \<longleftrightarrow>
     priceCache s (time_key a) = Some (now e) \<and> r a = priceCache s a \<and> provided e a d s"
  by (simp add: refetched_def)

lemma refetched_step_iff:
  "refetched e a d (price_step e b (r, s)) \<longleftrightarrow>
     priceCache (snd (price_step e b (r, s))) (time_key a) = Some (now e) \<and>
     fst (price_step e b (r, s)) a = priceCache (snd (price_step e b (r, s))) a \<and>
     provided e a d (snd (price_step e b (r, s)))"
  by (simp add: refetched_def)

lemma price_step_refetched_self:
  assumes "\<not> price_is_fresh (now e) s a" and "d \<le> draws s"
  shows "refetched e a d (price_step e a (r, s))"
proof -
  have "provided e a d (snd (price_step e a (r, s)))"
    using assms by (rule price_step_provided_self)
  moreover have "priceCache (snd (price_step e a (r, s))) (time_key a) = Some (now e)"
    using assms(1) by (simp add: price_step_refetch)
  moreover have "fst (price_step e a (r, s)) a = priceCache (snd (price_step e a (r, s))) a"
    using assms(1) by (simp add: price_step_refetch time_key_neq_self)
  ultimately show ?thesis
    by (simp add: refetched_step_iff)
qed

lemma price_step_keeps_refetched:
  assumes "refetched e a d (r, s)" and "time_key b \<noteq> a" and "b \<noteq> time_key a"
  shows "refetched e a d (price_step e b (r, s))"
proof (cases "b = a")
  case True
  show ?thesis
  proof (cases "price_is_fresh (now e) s a")
    case True
    with assms(1) \<open>b = a\<close> show ?thesis
      by (simp add: price_step_fresh refetched_iff)
  next
    case False
    have "d \<le> draws s"
      using assms(1) by (auto simp add: refetched_iff dest: provided_from)
    with False \<open>b = a\<close> show ?thesis
      by (simp add: price_step_refetched_self)
  qed
next
  case False
  have "priceCache (snd (price_step e b (r, s))) (time_key a) = priceCache s (time_key a)"
    using False assms(3) by (simp add: price_step_cache_other time_key_inject)
  moreover have same: "priceCache (snd (price_step e b (r, s))) a = priceCache s a"
    using False assms(2) by (simp add: price_step_cache_other)
  moreover have "fst (price_step e b (r, s)) a = r a"
    using False by (simp add: price_step_result_other)
  moreover have "provided e a d (snd (price_step e b (r, s)))"
  proof -
    have "provided e a d s"
      using assms(1) by (simp add: refetched_iff)
    then show ?thesis
      using same price_step_draws by (rule provided_later)
  qed
  ultimately show ?thesis
    using assms(1) by (simp add: refetched_step_iff refetched_iff)
qed

lemma fold_price_step_keeps_refetched:
  assumes "refetched e a d rs" and "\<forall>b \<in> set bs. time_key b \<noteq> a \<and> b \<noteq> time_key a"
  shows "refetched e a d (fold (price_step e) bs rs)"
  using assms
proof (induction bs arbitrary: rs)
  case Nil
  then show ?case by simp
next
  case (Cons b bs)
  obtain r s where rs: "rs = (r, s)"
    by (cases rs)
  have "refetched e a d (price_step e b rs)"
    using Cons.prems rs by (simp add: price_step_keeps_refetched)
  then show ?case
    using Cons.IH Cons.prems(2) by simp
qed

lemma fold_price_step_refetches:
  assumes "\<not> price_is_fresh (now e) s a" and "a \<in> set bs"
    and "\<forall>b \<in> set bs. time_key b \<noteq> a \<and> b \<noteq> time_key a"
    and "d \<le> draws s"
  shows "refetched e a d (fold (price_step e) bs (r, s))"
  using assms
proof (induction bs arbitrary: r s)
  case Nil
  then show ?case by simp
next
  case (Cons b bs)
  have keys: "\<forall>b \<in> set bs. time_key b \<noteq> a \<and> b \<noteq> time_key a"
    using Cons.prems(3) by simp
  show ?case
  proof (cases "b = a")
    case True
    have "refetched e a d (price_step e a (r, s))"
      using Cons.prems(1,4) by (rule price_step_refetched_self)
    then have "refetched e a d (fold (price_step e) bs (price_step e a (r, s)))"
      using keys by (rule fold_price_step_keeps_refetched)
    with True show ?thesis by simp
  next
    case False
    obtain r1 s1 where step: "price_step e b (r, s) = (r1, s1)"
      by (cases "price_step e b (r, s)")
    have ka: "priceCache s1 a = priceCache s a"
      using price_step_cache_other [of a b e r s] step False Cons.prems(3) by auto
    have kt: "priceCache s1 (time_key a) = priceCache s (time_key a)"
      using price_step_cache_other [of "time_key a" b e r s] step False Cons.prems(3)
      by (auto simp add: time_key_inject)
    have ttl: "cacheTTL s1 = cacheTTL s"
      using price_step_ttl [of e b r s] step by simp
    have stale: "\<not> price_is_fresh (now e) s1 a"
      using Cons.prems(1) price_is_fresh_cong [OF ka kt ttl] by simp
    have drw: "d \<le> draws s1"
      using price_step_draws [of s e b r] step Cons.prems(4) by simp
    have "a \<in> set bs"
      using Cons.prems(2) False by simp
    then have "refetched e a d (fold (price_step e) bs (r1, s1))"
      using Cons.IH [OF stale _ keys drw] by simp
    then show ?thesis
      using step by simp
  qed
qed

text \<open>
  The stubs never store a zero: with a clock that is not 0 and random numbers that are
  not negative, a price cache without zeros stays so. The stub fetcher never throws.
\<close>

lemma random_price_nonzero:
  assumes "0 \<le> math_random e (draws s)"
  shows "fst (random_price e s) \<noteq> 0"
proof -
  have "0 < math_random e (draws s) * 10 + 1 / 10"
    using assms by (simp add: add_nonneg_pos)
  then show ?thesis
    by (simp add: random_price_def Math_random_def)
qed

lemma fresh_price_nonzero:
  assumes "0 \<le> math_random e (draws s)"
  shows "fst (fresh_price e s a) \<noteq> 0"
  using random_price_nonzero [OF assms]
  by (simp add: fresh_price_def split: option.splits)

lemma price_step_stores_nonzero:
  assumes "\<forall>k v. priceCache s k = Some v \<longrightarrow> v \<noteq> 0"
    and "now e \<noteq> 0" and "0 \<le> math_random e (draws s)"
  shows "\<forall>k v. priceCache (snd (price_step e b (r, s))) k = Some v \<longrightarrow> v \<noteq> 0"
proof (cases "price_is_fresh (now e) s b")
  case True
  with assms(1) show ?thesis
    by (simp add: price_step_fresh)
next
  case False
  have "fst (fresh_price e s b) \<noteq> 0"
    using assms(3) by (rule fresh_price_nonzero)
  with False assms(1,2) show ?thesis
    by (simp add: price_step_refetch)
qed

lemma fold_price_step_stores_nonzero:
  assumes "\<forall>k v. priceCache (snd rs) k = Some v \<longrightarrow> v \<noteq> 0"
    and "now e \<noteq> 0" and "\<forall>n. 0 \<le> math_random e n"
  shows "\<forall>k v. priceCache (snd (fold (price_step e) bs rs)) k = Some v \<longrightarrow> v \<noteq> 0"
  using assms(1)
proof (induction bs arbitrary: rs)
  case Nil
  then show ?case by simp
next
  case (Cons b bs)
  obtain r s where rs: "rs = (r, s)"
    by (cases rs)
  have "\<forall>k v. priceCache (snd (price_step e b (r, s))) k = Some v \<longrightarrow> v \<noteq> 0"
    using Cons.prems assms(2,3) rs by (intro price_step_stores_nonzero) simp_all
  then show ?case
    using Cons.IH rs by simp
qed

lemma fetchPriceData_stores_nonzero:
  assumes "\<forall>k v. priceCache s k = Some v \<longrightarrow> v \<noteq> 0"
    and "now e \<noteq> 0" and "\<forall>n. 0 \<le> math_random e n"
  shows "\<forall>k v. priceCache (snd (fetchPriceData e s addresses)) k = Some v \<longrightarrow> v \<noteq> 0"
proof (cases "addressesToFetch (now e) s addresses = []")
  case True
  with assms(1) show ?thesis
    by (simp add: fetchPriceData_def)
next
  case False
  have "\<forall>k v. priceCache (snd (fold (price_step e) addresses (Map.empty, s))) k = Some v \<longrightarrow> v \<noteq> 0"
    using assms by (intro fold_price_step_stores_nonzero) simp_all
  with False show ?thesis
    by (simp add: fetchPriceData_def split: prod.splits)
qed

lemma mockVolatility_nonzero: "mockVolatility a = Some v \<Longrightarrow> v \<noteq> 0"
  by (auto simp add: mockVolatility_def split: if_splits)

lemma fresh_volatility_service:
  "volatilityCache (snd (fresh_volatility e s a)) = volatilityCache s"
  by (simp add: fresh_volatility_def Math_random_def split: option.splits)

lemma fresh_volatility_nonzero:
  assumes "0 \<le> math_random e (draws s)"
  shows "fst (fresh_volatility e s a) \<noteq> 0"
proof (cases "mockVolatility a")
  case None
  have "0 < math_random e (draws s) * 14 + 1"
    using assms by (simp add: add_nonneg_pos)
  with None show ?thesis
    by (simp add: fresh_volatility_def Math_random_def)
next
  case (Some v)
  then show ?thesis
    using mockVolatility_nonzero [of a v] by (simp add: fresh_volatility_def)
qed

lemma vol_step_stores_nonzero:
  assumes "\<forall>k v. volatilityCache s k = Some v \<longrightarrow> v \<noteq> 0"
    and "now e \<noteq> 0" and "0 \<le> math_random e (draws s)"
  shows "\<forall>k v. volatilityCache (snd (vol_step e b (r, s))) k = Some v \<longrightarrow> v \<noteq> 0"
proof (cases "vol_is_fresh (now e) s b")
  case True
  with assms(1) show ?thesis
    by (simp add: vol_step_def)
next
  case False
  have "fst (fresh_volatility e s b) \<noteq> 0"
    using assms(3) by (rule fresh_volatility_nonzero)
  with False assms(1,2) show ?thesis
    by (simp add: vol_step_def Let_def fresh_volatility_service split: prod.splits)
      (metis fresh_volatility_service fst_conv snd_conv)
qed

lemma fold_vol_step_stores_nonzero:
  assumes "\<forall>k v. volatilityCache (snd rs) k = Some v \<longrightarrow> v \<noteq> 0"
    and "now e \<noteq> 0" and "\<forall>n. 0 \<le> math_random e n"
  shows "\<forall>k v. volatilityCache (snd (fold (vol_step e) bs rs)) k = Some v \<longrightarrow> v \<noteq> 0"
  using assms(1)
proof (induction bs arbitrary: rs)
  case Nil
  then show ?case by simp
next
  case (Cons b bs)
  obtain r s where rs: "rs = (r, s)"
    by (cases rs)
  have "\<forall>k v. volatilityCache (snd (vol_step e b (r, s))) k = Some v \<longrightarrow> v \<noteq> 0"
    using Cons.prems assms(2,3) rs by (intro vol_step_stores_nonzero) simp_all
  then show ?case
    using Cons.IH rs by simp
qed

lemma fetchVolatilityData_stores_nonzero:
  assumes "\<forall>k v. volatilityCache s k = Some v \<longrightarrow> v \<noteq> 0"
    and "now e \<noteq> 0" and "\<forall>n. 0 \<le> math_random e n"
  shows "\<forall>k v. volatilityCache (snd (fetchVolatilityData e s addresses)) k = Some v \<longrightarrow> v \<noteq> 0"
proof (cases "filter (vol_needs_fetch (now e) s) addresses = []")
  case True
  with assms(1) show ?thesis
    by (simp add: fetchVolatilityData_def)
next
  case False
  have "\<forall>k v. volatilityCache (snd (fold (vol_step e) addresses (Map.empty, s))) k = Some v \<longrightarrow> v \<noteq> 0"
    using assms by (intro fold_vol_step_stores_nonzero) simp_all
  with False show ?thesis
    by (simp add: fetchVolatilityData_def split: prod.splits)
qed

lemma fetchPriceData_never_throws: "\<exists>result s'. fetchPriceData e s addresses = (Inr result, s')"
  by (simp add: fetchPriceData_def split: prod.splits)

lemma fetchVolatilityData_never_throws:
  "\<exists>result s'. fetchVolatilityData e s addresses = (Inr result, s')"
  by (simp add: fetchVolatilityData_def split: prod.splits)

text \<open>So with the stubs \<^verbatim>\<open>getPriceData\<close> always leaves through its \<^verbatim>\<open>try\<close> block.\<close>

lemma getPriceData_stubs_combine:
  assumes "ts \<noteq> []"
  shows "\<exists>priceData volatilityData s'.
           getPriceData e s (Some ts) =
             (Inr (combine priceData volatilityData (map (\<lambda>t. toLowerCase (address t)) ts)), s')"
proof -
  let ?addresses = "map (\<lambda>t. toLowerCase (address t)) ts"
  obtain priceData s1 where one: "fetchPriceData e s ?addresses = (Inr priceData, s1)"
    using fetchPriceData_never_throws by blast
  obtain volatilityData s2 where two: "fetchVolatilityData e s1 ?addresses = (Inr volatilityData, s2)"
    using fetchVolatilityData_never_throws by blast
  have "getPriceData e s (Some ts) = (Inr (combine priceData volatilityData ?addresses), s2)"
    using assms one two by (simp add: getPriceData_def getPriceData_with_def Let_def)
  then show ?thesis
    by blast
qed



text \<open>
  For the scorer an address that the fallback leaves out and one it would have answered
  with price 0 and volatility 0 are the same.
\<close>

lemma scoreToken_omitted_or_zero:
  "scoreToken (priceData(toLowerCase (address t) \<mapsto> \<lparr>price = Some 0, volatility24h = Some 0\<rparr>))
     slippageData t
   = scoreToken (priceData(toLowerCase (address t) := None)) slippageData t"
  by (simp add: scoreToken_def or_default_def)

section \<open>The price service: claims\<close>

text \<open>
  Claim C5. Let the price cache hold for the address \<open>a\<close> a value \<open>p\<close> stored at time
  \<open>T\<close>. A request for addresses that include \<open>a\<close>, made at a time within \<open>T + TTL\<close>,
  does not list \<open>a\<close> among the addresses to fetch, answers \<open>p\<close> for it and leaves its
  entry alone. A request made later than \<open>T + TTL\<close> lists \<open>a\<close> among the addresses to
  fetch and asks the provider again: the answer for \<open>a\<close> is the price of the stub table,
  or for an address the table does not have ten times a random number drawn during
  this request plus 0.1, and that price is stored under the time of the request.
\<close>

theorem price_cache_freshness:
  assumes "priceCache s a = Some p" and "p \<noteq> 0"
    and "priceCache s (time_key a) = Some T" and "T \<noteq> 0"
    and "a \<in> set addresses" and "\<forall>b \<in> set addresses. is_address b"
  shows "(now e - T \<le> cacheTTL s \<longrightarrow>
            a \<notin> set (addressesToFetch (now e) s addresses)
            \<and> (\<exists>result s'. fetchPriceData e s addresses = (Inr result, s')
                  \<and> result a = Some p
                  \<and> priceCache s' a = Some p \<and> priceCache s' (time_key a) = Some T))
       \<and> (now e - T > cacheTTL s \<longrightarrow>
            a \<in> set (addressesToFetch (now e) s addresses)
            \<and> (\<exists>result s'. fetchPriceData e s addresses = (Inr result, s')
                  \<and> priceCache s' (time_key a) = Some (now e)
                  \<and> priceCache s' a \<noteq> None \<and> result a = priceCache s' a
                  \<and> (\<forall>m. mockPrices a = Some m \<longrightarrow> result a = Some m)
                  \<and> (mockPrices a = None \<longrightarrow>
                       (\<exists>n. draws s \<le> n \<and> n < draws s'
                            \<and> result a = Some (math_random e n * 10 + 1 / 10)))))"
proof (intro conjI impI)
  have adr: "is_address a"
    using assms(5,6) by simp
  have keys: "\<forall>b \<in> set addresses. time_key b \<noteq> a \<and> b \<noteq> time_key a"
    using assms(6) adr by (simp add: time_key_not_address)
  {
    assume within: "now e - T \<le> cacheTTL s"
    have fresh: "price_is_fresh (now e) s a"
      using assms(1-4) within by (simp add: price_is_fresh_def truthy_simps)
    then show "a \<notin> set (addressesToFetch (now e) s addresses)"
      by (simp add: addressesToFetch_def price_needs_fetch_iff)
    show "\<exists>result s'. fetchPriceData e s addresses = (Inr result, s')
                  \<and> result a = Some p
                  \<and> priceCache s' a = Some p \<and> priceCache s' (time_key a) = Some T"
    proof (cases "addressesToFetch (now e) s addresses = []")
      case True
      then show ?thesis
        using assms(1-3,5)
        by (simp add: fetchPriceData_def cached_prices_apply or_default_Some)
    next
      case False
      obtain r' s' where run: "fold (price_step e) addresses (Map.empty, s) = (r', s')"
        by (cases "fold (price_step e) addresses (Map.empty, s)")
      have "priceCache s' a = Some p \<and> priceCache s' (time_key a) = Some T
            \<and> r' a = (if a \<in> set addresses then Some p else Map.empty a)"
        using assms(1-4) within keys run by (rule fold_price_step_fresh_entry)
      then show ?thesis
        using False run assms(5) by (simp add: fetchPriceData_def)
    qed
  }
  {
    assume expired: "now e - T > cacheTTL s"
    have stale: "\<not> price_is_fresh (now e) s a"
      using assms(3) expired by (simp add: price_is_fresh_def)
    then show inlist: "a \<in> set (addressesToFetch (now e) s addresses)"
      using assms(5) by (simp add: addressesToFetch_def price_needs_fetch_iff)
    obtain r' s' where run: "fold (price_step e) addresses (Map.empty, s) = (r', s')"
      by (cases "fold (price_step e) addresses (Map.empty, s)")
    have "refetched e a (draws s) (fold (price_step e) addresses (Map.empty, s))"
      using stale assms(5) keys by (rule fold_price_step_refetches) simp
    then have stamp: "priceCache s' (time_key a) = Some (now e)"
      and same: "r' a = priceCache s' a"
      and prov: "provided e a (draws s) s'"
      by (simp_all add: run refetched_iff)
    obtain n where n: "draws s \<le> n" "n \<le> draws s'" "mockPrices a = None \<longrightarrow> n < draws s'"
        "priceCache s' a = Some (provider_price e n a)"
      using prov by (rule providedE)
    have some: "priceCache s' a \<noteq> None"
      using n(4) by simp
    have table: "\<forall>m. mockPrices a = Some m \<longrightarrow> r' a = Some m"
    proof (intro allI impI)
      fix m
      assume m: "mockPrices a = Some m"
      then have "m \<noteq> 0"
        by (rule mockPrices_nonzero)
      with m have "provider_price e n a = m"
        by (simp add: provider_price_def)
      then show "r' a = Some m"
        using n(4) same by simp
    qed
    have drawn: "mockPrices a = None \<longrightarrow>
          (\<exists>n. draws s \<le> n \<and> n < draws s' \<and> r' a = Some (math_random e n * 10 + 1 / 10))"
    proof
      assume none: "mockPrices a = None"
      with n(3) have less: "n < draws s'" ..
      from none have "provider_price e n a = math_random e n * 10 + 1 / 10"
        by (simp add: provider_price_def)
      then have "r' a = Some (math_random e n * 10 + 1 / 10)"
        using n(4) same by simp
      then show "\<exists>n. draws s \<le> n \<and> n < draws s' \<and> r' a = Some (math_random e n * 10 + 1 / 10)"
        using n(1) less by (intro exI [of _ n] conjI)
    qed
    have nonempty: "addressesToFetch (now e) s addresses \<noteq> []"
      using inlist by auto
    have result: "fetchPriceData e s addresses = (Inr r', s')"
      using nonempty run by (simp add: fetchPriceData_def)
    show "\<exists>result s'. fetchPriceData e s addresses = (Inr result, s')
                  \<and> priceCache s' (time_key a) = Some (now e)
                  \<and> priceCache s' a \<noteq> None \<and> result a = priceCache s' a
                  \<and> (\<forall>m. mockPrices a = Some m \<longrightarrow> result a = Some m)
                  \<and> (mockPrices a = None \<longrightarrow>
                       (\<exists>n. draws s \<le> n \<and> n < draws s'
                            \<and> result a = Some (math_random e n * 10 + 1 / 10)))"
    proof (intro exI conjI)
      show "fetchPriceData e s addresses = (Inr r', s')"
        by (rule result)
      show "priceCache s' (time_key a) = Some (now e)"
        by (rule stamp)
      show "priceCache s' a \<noteq> None"
        by (rule some)
      show "r' a = priceCache s' a"
        by (rule same)
      show "\<forall>m. mockPrices a = Some m \<longrightarrow> r' a = Some m"
        by (rule table)
      show "mockPrices a = None \<longrightarrow>
          (\<exists>n. draws s \<le> n \<and> n < draws s' \<and> r' a = Some (math_random e n * 10 + 1 / 10))"
        by (rule drawn)
    qed
  }
qed

theorem price_cache_freshness_witness:
  "(\<exists>result s'.
      fetchPriceData \<lparr>now = 1299999, math_random = (\<lambda>n. 1 / 2)\<rparr>
        \<lparr>priceCache = [''0x6b175474e89094c44da98b954eedeac495271d0f'' \<mapsto> 7,
                        time_key ''0x6b175474e89094c44da98b954eedeac495271d0f'' \<mapsto> 1000000],
         volatilityCache = Map.empty, cacheTTL = 300000, draws = 0\<rparr>
        [''0x6b175474e89094c44da98b954eedeac495271d0f''] = (Inr result, s')
      \<and> result ''0x6b175474e89094c44da98b954eedeac495271d0f'' = Some 7
      \<and> priceCache s' (time_key ''0x6b175474e89094c44da98b954eedeac495271d0f'') = Some 1000000)
   \<and> (\<exists>result s'.
      fetchPriceData \<lparr>now = 1300001, math_random = (\<lambda>n. 1 / 2)\<rparr>
        \<lparr>priceCache = [''0x6b175474e89094c44da98b954eedeac495271d0f'' \<mapsto> 7,
                        time_key ''0x6b175474e89094c44da98b954eedeac495271d0f'' \<mapsto> 1000000],
         volatilityCache = Map.empty, cacheTTL = 300000, draws = 0\<rparr>
        [''0x6b175474e89094c44da98b954eedeac495271d0f''] = (Inr result, s')
      \<and> result ''0x6b175474e89094c44da98b954eedeac495271d0f'' = Some 1
      \<and> priceCache s' (time_key ''0x6b175474e89094c44da98b954eedeac495271d0f'') = Some 1300001)
   \<and> (\<exists>result s'.
      fetchPriceData \<lparr>now = 1300001, math_random = (\<lambda>n. 1 / 2)\<rparr>
        \<lparr>priceCache = [''0x00000000000000000000000000000000000000aa'' \<mapsto> 7,
                        time_key ''0x00000000000000000000000000000000000000aa'' \<mapsto> 1000000],
         volatilityCache = Map.empty, cacheTTL = 300000, draws = 0\<rparr>
        [''0x00000000000000000000000000000000000000aa''] = (Inr result, s')
      \<and> result ''0x00000000000000000000000000000000000000aa'' = Some (51 / 10)
      \<and> priceCache s' (time_key ''0x00000000000000000000000000000000000000aa'') = Some 1300001)"
proof -
  let ?a = "''0x6b175474e89094c44da98b954eedeac495271d0f''"
  let ?b = "''0x00000000000000000000000000000000000000aa''"
  let ?s = "\<lparr>priceCache = [?a \<mapsto> 7, time_key ?a \<mapsto> 1000000],
             volatilityCache = Map.empty, cacheTTL = 300000, draws = 0\<rparr>"
  let ?t = "\<lparr>priceCache = [?b \<mapsto> 7, time_key ?b \<mapsto> 1000000],
             volatilityCache = Map.empty, cacheTTL = 300000, draws = 0\<rparr>"
  have adr: "\<forall>x \<in> set [?a]. is_address x" "\<forall>x \<in> set [?b]. is_address x"
    by (simp_all add: is_address_def)
  have val: "priceCache ?s ?a = Some 7" "priceCache ?t ?b = Some 7"
    by (simp_all add: time_key_def)
  have tim: "priceCache ?s (time_key ?a) = Some 1000000" "priceCache ?t (time_key ?b) = Some 1000000"
    by simp_all
  have mem: "?a \<in> set [?a]" "?b \<in> set [?b]"
    by simp_all
  have nz: "(7::real) \<noteq> 0" "(1000000::real) \<noteq> 0"
    by simp_all
  have dai: "mockPrices ?a = Some 1"
    by (simp add: mockPrices_def)
  have other: "mockPrices ?b = None"
    by (simp add: mockPrices_def)
  note early = price_cache_freshness [OF val(1) nz(1) tim(1) nz(2) mem(1) adr(1),
      of "\<lparr>now = 1299999, math_random = (\<lambda>n. 1 / 2)\<rparr>"]
  note late = price_cache_freshness [OF val(1) nz(1) tim(1) nz(2) mem(1) adr(1),
      of "\<lparr>now = 1300001, math_random = (\<lambda>n. 1 / 2)\<rparr>"]
  note drawn = price_cache_freshness [OF val(2) nz(1) tim(2) nz(2) mem(2) adr(2),
      of "\<lparr>now = 1300001, math_random = (\<lambda>n. 1 / 2)\<rparr>"]
  have one: "\<exists>result s'.
      fetchPriceData \<lparr>now = 1299999, math_random = (\<lambda>n. 1 / 2)\<rparr> ?s [?a] = (Inr result, s')
      \<and> result ?a = Some 7 \<and> priceCache s' (time_key ?a) = Some 1000000"
    using early by simp blast
  have two: "\<exists>result s'.
      fetchPriceData \<lparr>now = 1300001, math_random = (\<lambda>n. 1 / 2)\<rparr> ?s [?a] = (Inr result, s')
      \<and> result ?a = Some 1 \<and> priceCache s' (time_key ?a) = Some 1300001"
    using late dai by simp blast
  have three: "\<exists>result s'.
      fetchPriceData \<lparr>now = 1300001, math_random = (\<lambda>n. 1 / 2)\<rparr> ?t [?b] = (Inr result, s')
      \<and> result ?b = Some (51 / 10) \<and> priceCache s' (time_key ?b) = Some 1300001"
    using drawn other by simp blast
  show ?thesis
    using one two three by (intro conjI)
qed




end
